theory Spec2Isabelle
  imports Complex_Main "HOL-Library.Word"
begin

section \<open>Node.cpp: the search node of the A* trajectory planner\<close>

text \<open>
  Modelled from the spec: the declaration of class \<open>Node\<close> (\<open>Node.h\<close>) is missing from
  the sources. The members are the ones the spec's data model lists and the member
  functions of \<open>Node.cpp\<close> read and write, with the types those functions use them
  at: \<open>parent\<close> a \<open>Node*\<close>, \<open>index\<close> an \<open>int\<close>, \<open>children\<close> a
  \<open>std::list<Node>\<close>, every other member a \<open>double\<close>.

  A member of type \<open>double\<close> holds a \<open>real\<close> here, a \<open>Node*\<close> is an address, and
  \<open>std::list<Node>\<close> is a list of nodes held by value. Double arithmetic (rounding,
  overflow to infinity, NaN) is not modelled: the member functions whose result is a
  matter of it (\<open>NodeDist\<close>, \<open>GoalCheck\<close>, \<open>operator<\<close>) are left out, and the
  three positions that \<open>GenerateChildren\<close> computes are taken exactly, where the source
  rounds each operation; no statement below fixes their values beyond inputs at which
  double arithmetic is exact.
\<close>

type_synonym Node_ptr = nat

datatype Node = Node
  (parent: Node_ptr)
  (index: int)
  (x: real) (y: real) (z: real)
  (vx: real) (vy: real) (vz: real)
  (psi: real) (vs: real) (speed: real)
  (g: real) (h: real)
  (neighborhood: real)
  (children: "Node list")

subsection \<open>Constructor\<close>

text \<open>
  \<open>Node::Node(Node* _parent, int index, double xl, ...)\<close>. The body assigns every
  member except \<open>index\<close>: the parameter of that name hides the member and is never
  read. The member therefore keeps whatever its storage held when the body started;
  that content is the parameter \<open>index0\<close>. The list \<open>children\<close> is
  default-constructed, hence empty.
\<close>

definition Node_Node ::
  "int \<Rightarrow> Node_ptr \<Rightarrow> int \<Rightarrow> real \<Rightarrow> real \<Rightarrow> real \<Rightarrow> real \<Rightarrow> real \<Rightarrow> real \<Rightarrow> Node" where
  "Node_Node index0 parent_arg index_arg xl yl zl psil vsl speedl =
     Node parent_arg index0 xl yl zl 0 0 0 psil vsl speedl 0 0 5 []"

subsection \<open>Inequality\<close>

definition Node_noteq :: "Node \<Rightarrow> Node \<Rightarrow> bool" where
  "Node_noteq this B = (if index this \<noteq> index B then True else False)"

subsection \<open>AddChild\<close>

text \<open>
  The loop of \<open>AddChild\<close> walks the children from the front and leaves the function
  with \<open>false\<close> at the first one whose index is the candidate's.
\<close>

fun AddChild_scan :: "Node list \<Rightarrow> Node \<Rightarrow> bool" where
  "AddChild_scan [] child = False"
| "AddChild_scan (it # rest) child =
     (if index it = index child then True else AddChild_scan rest child)"

definition set_children :: "Node \<Rightarrow> Node list \<Rightarrow> Node" where
  "set_children n cs =
     Node (parent n) (index n) (x n) (y n) (z n) (vx n) (vy n) (vz n)
          (psi n) (vs n) (speed n) (g n) (h n) (neighborhood n) cs"

text \<open>
  The result is the returned value and the node afterwards. After
  \<open>children.push_back(child)\<close> the body ends with no \<open>return\<close> statement: on that
  path the function hands back no value, which is \<open>None\<close> here.
\<close>

definition AddChild :: "Node \<Rightarrow> Node \<Rightarrow> bool option \<times> Node" where
  "AddChild this child =
     (if AddChild_scan (children this) child then (Some False, this)
      else (None, set_children this (children this @ [child])))"

subsection \<open>GenerateChildren\<close>

text \<open>
  The arrays \<open>heading\<close> and \<open>vspeed\<close> arrive as pointers with their lengths apart;
  they are lists here, and a read past the end (undefined in C++) is \<open>None\<close>.
\<close>

definition read_at :: "real list \<Rightarrow> nat \<Rightarrow> real option" where
  "read_at a k = (if k < length a then Some (a ! k) else None)"

text \<open>\<open>int totalNodes = nodeList->size()\<close>: the size converted to a 32-bit \<open>int\<close>.\<close>

definition size_as_int :: "Node list \<Rightarrow> int" where
  "size_as_int nodeList = sint (word_of_nat (length nodeList) :: 32 word)"

text \<open>
  One pass of the inner loop body, on the state made of \<open>*this\<close> and \<open>*nodeList\<close>.
  \<open>thisp\<close> is the address \<open>this\<close>, \<open>index0\<close> the content of the storage of
  \<open>_child.index\<close> before construction. \<open>AddChild\<close> takes its argument by value, so
  the candidate is the copy of \<open>_child\<close> made at the call.

  The statement \<open>_child.AddChild(_child);\<close> discards the returned value. When the call
  took the path that ends without a \<open>return\<close>, what the caller gets is undefined in
  C++, and builds differ: \<open>comes_back\<close> says whether control comes back from such a
  call (with some value, which is discarded, and the pass goes on) or does not, in which
  case the run has no result, \<open>None\<close>, as for a read past the end of an array.
\<close>

definition GenerateChildren_body ::
  "bool \<Rightarrow> int \<Rightarrow> Node_ptr \<Rightarrow> real \<Rightarrow> real \<Rightarrow> real \<Rightarrow> Node \<times> Node list
     \<Rightarrow> (Node \<times> Node list) option" where
  "GenerateChildren_body comes_back index0 thisp dpsi dvs dt st =
     (let this = fst st; nodeList = snd st;
          xnew = x this + speed this * sin (dpsi * pi / 180 + psi this * pi / 180) * dt;
          ynew = y this + speed this * cos (dpsi * pi / 180 + psi this * pi / 180) * dt;
          znew = z this + vs this * dt;
          totalNodes = size_as_int nodeList;
          child0 = Node_Node index0 thisp totalNodes xnew ynew znew (psi this + dpsi) (vs this) 2;
          called = AddChild child0 child0
      in case fst called of
           None \<Rightarrow> if comes_back then Some (this, nodeList @ [snd called]) else None
         | Some returned \<Rightarrow> Some (this, nodeList @ [snd called]))"

text \<open>
  The loop counters start at 0 and only go up, so they are naturals, compared with
  the \<open>int\<close> bounds \<open>lenH\<close> and \<open>lenV\<close> (a bound below 1 gives no pass). \<open>index0 i j\<close>
  is the content of the storage of \<open>_child.index\<close> in pass \<open>(i, j)\<close>.
\<close>

function GenerateChildren_inner ::
  "bool \<Rightarrow> (nat \<Rightarrow> nat \<Rightarrow> int) \<Rightarrow> Node_ptr \<Rightarrow> int \<Rightarrow> real list \<Rightarrow> real list \<Rightarrow> real \<Rightarrow> nat \<Rightarrow> nat
     \<Rightarrow> Node \<times> Node list \<Rightarrow> (Node \<times> Node list) option" where
  "GenerateChildren_inner comes_back index0 thisp lenV heading vspeed dt i j st =
     (if int j < lenV then
        (case read_at heading i of
           None \<Rightarrow> None
         | Some dpsi \<Rightarrow>
             (case read_at vspeed j of
                None \<Rightarrow> None
              | Some dvs \<Rightarrow>
                  (case GenerateChildren_body comes_back (index0 i j) thisp dpsi dvs dt st of
                     None \<Rightarrow> None
                   | Some st' \<Rightarrow>
                       GenerateChildren_inner comes_back index0 thisp lenV heading vspeed dt
                         i (j + 1) st')))
      else Some st)"
  by pat_completeness auto
termination
  by (relation "measure (\<lambda>(comes_back, index0, thisp, lenV, heading, vspeed, dt, i, j, st).
        nat lenV - j)") auto

function GenerateChildren_outer ::
  "bool \<Rightarrow> (nat \<Rightarrow> nat \<Rightarrow> int) \<Rightarrow> Node_ptr \<Rightarrow> int \<Rightarrow> int \<Rightarrow> real list \<Rightarrow> real list \<Rightarrow> real \<Rightarrow> nat
     \<Rightarrow> Node \<times> Node list \<Rightarrow> (Node \<times> Node list) option" where
  "GenerateChildren_outer comes_back index0 thisp lenH lenV heading vspeed dt i st =
     (if int i < lenH then
        (case GenerateChildren_inner comes_back index0 thisp lenV heading vspeed dt i 0 st of
           None \<Rightarrow> None
         | Some st' \<Rightarrow>
             GenerateChildren_outer comes_back index0 thisp lenH lenV heading vspeed dt (i + 1) st')
      else Some st)"
  by pat_completeness auto
termination
  by (relation "measure (\<lambda>(comes_back, index0, thisp, lenH, lenV, heading, vspeed, dt, i, st).
        nat lenH - i)") auto

definition GenerateChildren_ub ::
  "bool \<Rightarrow> (nat \<Rightarrow> nat \<Rightarrow> int) \<Rightarrow> Node_ptr \<Rightarrow> Node \<Rightarrow> int \<Rightarrow> int \<Rightarrow> real list \<Rightarrow> real list \<Rightarrow> real
     \<Rightarrow> Node list \<Rightarrow> (Node \<times> Node list) option" where
  "GenerateChildren_ub comes_back index0 thisp this lenH lenV heading vspeed dt nodeList =
     GenerateChildren_outer comes_back index0 thisp lenH lenV heading vspeed dt 0 (this, nodeList)"

text \<open>
  \<open>GenerateChildren\<close> in a build where control comes back from the call of \<open>AddChild\<close>
  (unoptimised builds): what the function does when it gets through its passes.
\<close>

definition GenerateChildren ::
  "(nat \<Rightarrow> nat \<Rightarrow> int) \<Rightarrow> Node_ptr \<Rightarrow> Node \<Rightarrow> int \<Rightarrow> int \<Rightarrow> real list \<Rightarrow> real list \<Rightarrow> real
     \<Rightarrow> Node list \<Rightarrow> (Node \<times> Node list) option" where
  "GenerateChildren index0 thisp this lenH lenV heading vspeed dt nodeList =
     GenerateChildren_ub True index0 thisp this lenH lenV heading vspeed dt nodeList"

text \<open>
  The node that one pass of the loop body appends to the node list: the constructed
  \<open>_child\<close> after \<open>_child.AddChild(_child)\<close>.
\<close>

definition successor :: "int \<Rightarrow> Node_ptr \<Rightarrow> Node \<Rightarrow> real \<Rightarrow> real \<Rightarrow> Node" where
  "successor index0 thisp this dpsi dt =
     (let child0 = Node thisp index0
            (x this + speed this * sin (dpsi * pi / 180 + psi this * pi / 180) * dt)
            (y this + speed this * cos (dpsi * pi / 180 + psi this * pi / 180) * dt)
            (z this + vs this * dt)
            0 0 0 (psi this + dpsi) (vs this) 2 0 0 5 []
      in set_children child0 [child0])"

section \<open>Properties\<close>

subsection \<open>AddChild: the two paths\<close>

lemma AddChild_scan_iff: "AddChild_scan cs child \<longleftrightarrow> index child \<in> index ` set cs"
  by (induction cs) auto

lemma AddChild_duplicate:
  "index child \<in> index ` set (children this) \<Longrightarrow> AddChild this child = (Some False, this)"
  by (simp add: AddChild_def AddChild_scan_iff)

lemma AddChild_fresh:
  "index child \<notin> index ` set (children this) \<Longrightarrow>
     AddChild this child = (None, set_children this (children this @ [child]))"
  by (simp add: AddChild_def AddChild_scan_iff)

lemma AddChild_twice:
  "AddChild (snd (AddChild this child)) child = (Some False, snd (AddChild this child))"
  by (cases "index child \<in> index ` set (children this)")
     (simp_all add: AddChild_duplicate AddChild_fresh set_children_def)

subsection \<open>GenerateChildren: what the loops compute\<close>

declare GenerateChildren_inner.simps [simp del] GenerateChildren_outer.simps [simp del]

lemma AddChild_new_node:
  "AddChild (Node_Node i0 p k xl yl zl psil vsl speedl) c =
     (None, set_children (Node_Node i0 p k xl yl zl psil vsl speedl) [c])"
  by (simp add: AddChild_def Node_Node_def)

lemma body_eq:
  "GenerateChildren_body comes_back index0 thisp dpsi dvs dt (this, nodeList) =
     (if comes_back then Some (this, nodeList @ [successor index0 thisp this dpsi dt]) else None)"
  by (simp add: GenerateChildren_body_def AddChild_new_node Let_def)
     (simp add: successor_def Node_Node_def Let_def)

text \<open>Where control comes back and the reads stay in the arrays, every pass is made.\<close>

lemma inner_eq:
  assumes "i < length heading" "lenV \<le> int (length vspeed)"
  shows "GenerateChildren_inner True index0 thisp lenV heading vspeed dt i j (this, nodeList) =
     Some (this, nodeList @
        map (\<lambda>j. successor (index0 i j) thisp this (heading ! i) dt) [j..<nat lenV])"
  using assms
proof (induction "nat lenV - j" arbitrary: j nodeList)
  case 0
  then have "\<not> int j < lenV" by linarith
  then show ?case
    by (subst GenerateChildren_inner.simps) simp
next
  case (Suc k)
  then have lt: "int j < lenV" by linarith
  then have jn: "j < nat lenV" by linarith
  from lt Suc.prems have jv: "j < length vspeed" by linarith
  have k: "k = nat lenV - (j + 1)" using Suc.hyps(2) by linarith
  have up: "[j..<nat lenV] = j # [j + 1..<nat lenV]"
    using jn by (simp add: upt_rec)
  show ?case
    apply (subst GenerateChildren_inner.simps)
    apply (simp only: lt if_True read_at_def Suc.prems jv option.case body_eq)
    apply (subst Suc.hyps(1) [OF k Suc.prems])
    apply (simp add: up)
    done
qed

lemma outer_eq:
  assumes "lenH \<le> int (length heading)" "lenV \<le> int (length vspeed)"
  shows "GenerateChildren_outer True index0 thisp lenH lenV heading vspeed dt i (this, nodeList) =
     Some (this, nodeList @ concat (map (\<lambda>i.
        map (\<lambda>j. successor (index0 i j) thisp this (heading ! i) dt) [0..<nat lenV]) [i..<nat lenH]))"
  using assms
proof (induction "nat lenH - i" arbitrary: i nodeList)
  case 0
  then have "\<not> int i < lenH" by linarith
  then show ?case
    by (subst GenerateChildren_outer.simps) simp
next
  case (Suc k)
  then have lt: "int i < lenH" by linarith
  then have jn: "i < nat lenH" by linarith
  from lt Suc.prems have jv: "i < length heading" by linarith
  have k: "k = nat lenH - (i + 1)" using Suc.hyps(2) by linarith
  have up: "[i..<nat lenH] = i # [i + 1..<nat lenH]"
    using jn by (simp add: upt_rec)
  show ?case
    apply (subst GenerateChildren_outer.simps)
    apply (simp only: lt if_True inner_eq [OF jv Suc.prems(2)] option.case)
    apply (subst Suc.hyps(1) [OF k Suc.prems])
    apply (simp add: up)
    done
qed

lemma GenerateChildren_ub_eq:
  assumes "lenH \<le> int (length heading)" "lenV \<le> int (length vspeed)"
  shows "GenerateChildren_ub True index0 thisp this lenH lenV heading vspeed dt nodeList =
     Some (this, nodeList @ concat (map (\<lambda>i.
        map (\<lambda>j. successor (index0 i j) thisp this (heading ! i) dt) [0..<nat lenV]) [0..<nat lenH]))"
  unfolding GenerateChildren_ub_def by (rule outer_eq [OF assms])

lemma GenerateChildren_eq:
  assumes "lenH \<le> int (length heading)" "lenV \<le> int (length vspeed)"
  shows "GenerateChildren index0 thisp this lenH lenV heading vspeed dt nodeList =
     Some (this, nodeList @ concat (map (\<lambda>i.
        map (\<lambda>j. successor (index0 i j) thisp this (heading ! i) dt) [0..<nat lenV]) [0..<nat lenH]))"
  unfolding GenerateChildren_def by (rule GenerateChildren_ub_eq [OF assms])

lemma GenerateChildren_ub_returns:
  assumes "lenH \<le> int (length heading)" "lenV \<le> int (length vspeed)"
  shows "\<exists>new. GenerateChildren_ub True index0 thisp this lenH lenV heading vspeed dt nodeList
            = Some (this, nodeList @ new)
          \<and> length new = nat lenH * nat lenV"
proof -
  let ?new = "concat (map (\<lambda>i.
        map (\<lambda>j. successor (index0 i j) thisp this (heading ! i) dt) [0..<nat lenV]) [0..<nat lenH])"
  have "length ?new = nat lenH * nat lenV"
    by (simp add: length_concat comp_def sum_list_triv)
  with GenerateChildren_ub_eq [OF assms] show ?thesis by blast
qed

text \<open>
  Whatever the build and the lengths: a run that has a result left \<open>*this\<close> as it was
  and appended to the list nothing but nodes made by a pass.
\<close>

lemma inner_Some:
  assumes "GenerateChildren_inner comes_back index0 thisp lenV heading vspeed dt i j (this, nodeList)
             = Some st'"
  shows "\<exists>new. st' = (this, nodeList @ new)
          \<and> (\<forall>c \<in> set new. \<exists>k dpsi. c = successor k thisp this dpsi dt)"
  using assms
proof (induction "nat lenV - j" arbitrary: j nodeList)
  case 0
  then have "\<not> int j < lenV" by linarith
  with "0.prems" have "st' = (this, nodeList)"
    by (subst (asm) GenerateChildren_inner.simps) simp
  then show ?case by simp
next
  case (Suc n)
  then have lt: "int j < lenV" by linarith
  have n: "n = nat lenV - (j + 1)" using Suc.hyps(2) by linarith
  from Suc.prems lt obtain dpsi where
    rest: "GenerateChildren_inner comes_back index0 thisp lenV heading vspeed dt i (j + 1)
             (this, nodeList @ [successor (index0 i j) thisp this dpsi dt]) = Some st'"
    by (subst (asm) GenerateChildren_inner.simps)
       (auto simp: body_eq split: option.splits if_splits)
  from Suc.hyps(1) [OF n rest] obtain new where
    new: "st' = (this, (nodeList @ [successor (index0 i j) thisp this dpsi dt]) @ new)"
         "\<forall>c \<in> set new. \<exists>k dpsi. c = successor k thisp this dpsi dt"
    by blast
  have "st' = (this, nodeList @ (successor (index0 i j) thisp this dpsi dt # new))"
    using new(1) by simp
  moreover have "\<forall>c \<in> set (successor (index0 i j) thisp this dpsi dt # new).
      \<exists>k dpsi. c = successor k thisp this dpsi dt"
    using new(2) by auto
  ultimately show ?case by blast
qed

lemma outer_Some:
  assumes "GenerateChildren_outer comes_back index0 thisp lenH lenV heading vspeed dt i (this, nodeList)
             = Some st'"
  shows "\<exists>new. st' = (this, nodeList @ new)
          \<and> (\<forall>c \<in> set new. \<exists>k dpsi. c = successor k thisp this dpsi dt)"
  using assms
proof (induction "nat lenH - i" arbitrary: i nodeList)
  case 0
  then have "\<not> int i < lenH" by linarith
  with "0.prems" have "st' = (this, nodeList)"
    by (subst (asm) GenerateChildren_outer.simps) simp
  then show ?case by simp
next
  case (Suc n)
  then have lt: "int i < lenH" by linarith
  have n: "n = nat lenH - (i + 1)" using Suc.hyps(2) by linarith
  from Suc.prems lt obtain st1 where
    row: "GenerateChildren_inner comes_back index0 thisp lenV heading vspeed dt i 0 (this, nodeList)
            = Some st1"
    and rest: "GenerateChildren_outer comes_back index0 thisp lenH lenV heading vspeed dt (i + 1) st1
            = Some st'"
    by (subst (asm) GenerateChildren_outer.simps) (auto split: option.splits)
  from inner_Some [OF row] obtain new1 where
    new1: "st1 = (this, nodeList @ new1)"
          "\<forall>c \<in> set new1. \<exists>k dpsi. c = successor k thisp this dpsi dt"
    by blast
  from Suc.hyps(1) [OF n rest [unfolded new1(1)]] obtain new2 where
    new2: "st' = (this, (nodeList @ new1) @ new2)"
          "\<forall>c \<in> set new2. \<exists>k dpsi. c = successor k thisp this dpsi dt"
    by blast
  have "st' = (this, nodeList @ (new1 @ new2))"
    using new2(1) by simp
  moreover have "\<forall>c \<in> set (new1 @ new2). \<exists>k dpsi. c = successor k thisp this dpsi dt"
    using new1(2) new2(2) by auto
  ultimately show ?case by blast
qed

lemma GenerateChildren_ub_Some:
  assumes "GenerateChildren_ub comes_back index0 thisp this lenH lenV heading vspeed dt nodeList
             = Some (this', nodeList')"
  shows "this' = this \<and> (\<exists>new. nodeList' = nodeList @ new
          \<and> (\<forall>c \<in> set new. \<exists>k dpsi. c = successor k thisp this dpsi dt))"
  using outer_Some [OF assms [unfolded GenerateChildren_ub_def]] by auto

lemma successor_sel:
  "parent (successor index0 thisp this dpsi dt) = thisp"
  "index (successor index0 thisp this dpsi dt) = index0"
  "x (successor index0 thisp this dpsi dt) =
     x this + speed this * sin (dpsi * pi / 180 + psi this * pi / 180) * dt"
  "y (successor index0 thisp this dpsi dt) =
     y this + speed this * cos (dpsi * pi / 180 + psi this * pi / 180) * dt"
  "z (successor index0 thisp this dpsi dt) = z this + vs this * dt"
  "psi (successor index0 thisp this dpsi dt) = psi this + dpsi"
  "vs (successor index0 thisp this dpsi dt) = vs this"
  "speed (successor index0 thisp this dpsi dt) = 2"
  "g (successor index0 thisp this dpsi dt) = 0"
  "h (successor index0 thisp this dpsi dt) = 0"
  "neighborhood (successor index0 thisp this dpsi dt) = 5"
  by (simp_all add: successor_def set_children_def Let_def)

lemma successor_children:
  "children (successor index0 thisp this dpsi dt) =
     [set_children (successor index0 thisp this dpsi dt) []]"
  by (simp add: successor_def set_children_def Let_def)

lemma concat_replicate_upt:
  "concat (map (\<lambda>i. replicate n v) [0..<m]) = replicate (m * n) v"
  by (induction m) (simp_all add: replicate_add [symmetric] add.commute)

lemma GenerateChildren_vs_kept:
  assumes "lenH \<le> int (length heading)" and "lenV \<le> int (length vspeed)"
  shows "\<exists>new. GenerateChildren index0 thisp this lenH lenV heading vspeed dt nodeList
             = Some (this, nodeList @ new)
     \<and> map vs new = replicate (nat lenH * nat lenV) (vs this)"
proof -
  let ?new = "concat (map (\<lambda>i.
        map (\<lambda>j. successor (index0 i j) thisp this (heading ! i) dt) [0..<nat lenV])
        [0..<nat lenH])"
  have "map vs ?new = concat (map (\<lambda>i. replicate (nat lenV) (vs this)) [0..<nat lenH])"
    by (simp add: map_concat comp_def successor_sel map_replicate_const)
  also have "\<dots> = replicate (nat lenH * nat lenV) (vs this)"
    by (rule concat_replicate_upt)
  finally show ?thesis
    using GenerateChildren_eq [OF assms] by blast
qed

section \<open>The claims\<close>

text \<open>
  C1. The claim: every successor made by \<open>GenerateChildren\<close> has the vertical speed
  \<open>vspeed_offset\<close> of its pair. The code reads \<open>dvs = vspeed[j]\<close> and never uses it:
  the constructor is handed the expanded node's own \<open>vs\<close>. For a node with
  \<open>vs = 3\<close>, one heading offset and the vertical-speed offsets \<open>1\<close> and \<open>-1\<close>, both
  successors have vertical speed \<open>3\<close>.
\<close>

theorem GenerateChildren_vs_from_parent:
  "map_option (map vs \<circ> snd)
     (GenerateChildren (\<lambda>i j. 0) 1 (Node 0 0 0 0 0 0 0 0 0 3 2 0 0 5 []) 1 2 [0] [1, - 1] 1 [])
     = Some [3, 3]"
  by (simp add: GenerateChildren_def GenerateChildren_ub_def GenerateChildren_outer.simps
      GenerateChildren_inner.simps read_at_def body_eq successor_def set_children_def)

text \<open>
  C2. The claim: every successor stores as its index the size of the node list at its
  creation, so indices are unique and in creation order. The constructor never writes
  the member \<open>index\<close>: whatever the argument \<open>k\<close>, the member keeps the prior content
  \<open>i0\<close> of its storage. With that content \<open>7\<close> in both passes, the two successors
  made at list sizes \<open>0\<close> and \<open>1\<close> both carry index \<open>7\<close>.
\<close>

theorem index_argument_not_stored:
  "index (Node_Node i0 p k xl yl zl psil vsl speedl) = i0
   \<and> map_option (map index \<circ> snd)
       (GenerateChildren (\<lambda>i j. 7) 1 (Node 0 0 0 0 0 0 0 0 0 0 2 0 0 5 []) 1 2 [0] [0, 0] 1 [])
     = Some [7, 7]"
  by (simp add: Node_Node_def GenerateChildren_def GenerateChildren_ub_def
      GenerateChildren_outer.simps GenerateChildren_inner.simps read_at_def body_eq
      successor_def set_children_def)

text \<open>
  C3. The claim: \<open>AddChild\<close> returns false and changes nothing when a child with the
  candidate's index is there, and otherwise appends the candidate and returns true. On a
  node with no children the candidate is appended, but the function ends without a
  \<open>return\<close>: no value comes back, where the claim says true.
\<close>

theorem AddChild_no_return_value:
  "AddChild (Node 0 0 0 0 0 0 0 0 0 0 2 0 0 5 []) (Node 1 1 0 2 0 0 0 0 0 0 2 0 0 5 [])
     = (None, Node 0 0 0 0 0 0 0 0 0 0 2 0 0 5 [Node 1 1 0 2 0 0 0 0 0 0 2 0 0 5 []])"
  by (simp add: AddChild_def set_children_def)

text \<open>
  C4. The claim: a call of \<open>GenerateChildren\<close> with grids of \<open>m\<close> and \<open>n\<close> entries appends
  exactly \<open>m * n\<close> successors. Every pass calls \<open>AddChild\<close> on a node just constructed,
  which has no children, so the call takes the path that ends without a \<open>return\<close>,
  whatever the arguments of the constructor. In a build where control does not come
  back from such a call, the run with one heading offset and one vertical-speed offset
  has no result: no successor is appended, where the claim says one.
\<close>

theorem GenerateChildren_pass_without_return:
  "fst (AddChild (Node_Node i0 p k xl yl zl psil vsl speedl)
                 (Node_Node i0 p k xl yl zl psil vsl speedl)) = None
   \<and> GenerateChildren_ub False (\<lambda>i j. 0) 1 (Node 0 0 0 0 0 0 0 0 0 0 2 0 0 5 []) 1 1 [0] [0] 1 []
     = None"
  by (simp add: AddChild_new_node GenerateChildren_ub_def GenerateChildren_outer.simps
      GenerateChildren_inner.simps read_at_def body_eq)

text \<open>
  C5. Every successor that \<open>GenerateChildren\<close> appends has forward speed \<open>2\<close>, whatever
  the expanded node and its speed are: a run that has a result appended only nodes of
  speed \<open>2\<close>; and where control comes back from \<open>AddChild\<close> and the lengths passed do
  not exceed the arrays, the run has a result, with one successor per pass.
\<close>

theorem GenerateChildren_speed:
  "(GenerateChildren_ub comes_back index0 thisp this lenH lenV heading vspeed dt nodeList
       = Some (this', nodeList')
     \<longrightarrow> (\<exists>new. nodeList' = nodeList @ new \<and> (\<forall>c \<in> set new. speed c = 2)))
   \<and> (comes_back \<and> lenH \<le> int (length heading) \<and> lenV \<le> int (length vspeed)
     \<longrightarrow> (\<exists>new. GenerateChildren_ub comes_back index0 thisp this lenH lenV heading vspeed dt nodeList
                 = Some (this, nodeList @ new)
               \<and> length new = nat lenH * nat lenV))"
proof (intro conjI impI)
  assume "GenerateChildren_ub comes_back index0 thisp this lenH lenV heading vspeed dt nodeList
       = Some (this', nodeList')"
  from GenerateChildren_ub_Some [OF this] obtain new where
    "nodeList' = nodeList @ new"
    "\<forall>c \<in> set new. \<exists>k dpsi. c = successor k thisp this dpsi dt"
    by blast
  then have "nodeList' = nodeList @ new \<and> (\<forall>c \<in> set new. speed c = 2)"
    by (auto simp: successor_sel)
  then show "\<exists>new. nodeList' = nodeList @ new \<and> (\<forall>c \<in> set new. speed c = 2)" ..
next
  assume "comes_back \<and> lenH \<le> int (length heading) \<and> lenV \<le> int (length vspeed)"
  then show "\<exists>new. GenerateChildren_ub comes_back index0 thisp this lenH lenV heading vspeed dt nodeList
                 = Some (this, nodeList @ new)
               \<and> length new = nat lenH * nat lenV"
    using GenerateChildren_ub_returns [of lenH heading lenV vspeed index0 thisp this dt nodeList]
    by simp
qed

theorem GenerateChildren_speed_witness:
  "GenerateChildren_ub True (\<lambda>i j. 0) 1 (Node 0 0 0 0 0 0 0 0 0 0 7 0 0 5 []) 1 2 [0] [0, 1] 1 []
     = Some (Node 0 0 0 0 0 0 0 0 0 0 7 0 0 5 [],
             [Node 1 0 0 7 0 0 0 0 0 0 2 0 0 5 [Node 1 0 0 7 0 0 0 0 0 0 2 0 0 5 []],
              Node 1 0 0 7 0 0 0 0 0 0 2 0 0 5 [Node 1 0 0 7 0 0 0 0 0 0 2 0 0 5 []]])
   \<and> (\<exists>new. [Node 1 0 0 7 0 0 0 0 0 0 2 0 0 5 [Node 1 0 0 7 0 0 0 0 0 0 2 0 0 5 []],
              Node 1 0 0 7 0 0 0 0 0 0 2 0 0 5 [Node 1 0 0 7 0 0 0 0 0 0 2 0 0 5 []]] = [] @ new
          \<and> (\<forall>c \<in> set new. speed c = 2))
   \<and> (True \<and> (1::int) \<le> int (length [0 :: real]) \<and> (2::int) \<le> int (length [0, 1 :: real]))
   \<and> (\<exists>new. GenerateChildren_ub True (\<lambda>i j. 0) 1 (Node 0 0 0 0 0 0 0 0 0 0 7 0 0 5 []) 1 2 [0] [0, 1] 1 []
          = Some (Node 0 0 0 0 0 0 0 0 0 0 7 0 0 5 [], [] @ new)
        \<and> length new = nat 1 * nat 2)"
proof -
  have run: "GenerateChildren_ub True (\<lambda>i j. 0) 1 (Node 0 0 0 0 0 0 0 0 0 0 7 0 0 5 []) 1 2 [0] [0, 1] 1 []
     = Some (Node 0 0 0 0 0 0 0 0 0 0 7 0 0 5 [],
             [Node 1 0 0 7 0 0 0 0 0 0 2 0 0 5 [Node 1 0 0 7 0 0 0 0 0 0 2 0 0 5 []],
              Node 1 0 0 7 0 0 0 0 0 0 2 0 0 5 [Node 1 0 0 7 0 0 0 0 0 0 2 0 0 5 []]])"
    by (simp add: GenerateChildren_ub_def GenerateChildren_outer.simps
        GenerateChildren_inner.simps read_at_def body_eq successor_def set_children_def)
  have fit: "True \<and> (1::int) \<le> int (length [0 :: real]) \<and> (2::int) \<le> int (length [0, 1 :: real])"
    by simp
  note inst = GenerateChildren_speed [where comes_back = True and ?index0.0 = "\<lambda>i j. 0" and thisp = 1
      and this = "Node 0 0 0 0 0 0 0 0 0 0 7 0 0 5 []" and lenH = 1 and lenV = 2
      and heading = "[0]" and vspeed = "[0, 1]" and dt = 1 and nodeList = "[]"]
  show ?thesis
    by (rule conjI [OF run conjI [OF inst [THEN conjunct1, THEN mp, OF run]
          conjI [OF fit inst [THEN conjunct2, THEN mp, OF fit]]]])
qed

text \<open>
  C9. The constructor sets \<open>g = 0\<close>, \<open>h = 0\<close> and \<open>neighborhood = 5\<close>.
  \<open>GenerateChildren\<close> writes no \<open>g\<close> and no \<open>h\<close>: a run that has a result left the
  expanded node and the nodes already in the list as they were, and every successor it
  appended has \<open>g = 0\<close> and \<open>h = 0\<close>; and where control comes back from \<open>AddChild\<close> and
  the lengths passed do not exceed the arrays, the run has a result, with one successor
  per pass.
\<close>

theorem costs_default_and_untouched:
  "g (Node_Node i0 p k xl yl zl psil vsl speedl) = 0
   \<and> h (Node_Node i0 p k xl yl zl psil vsl speedl) = 0
   \<and> neighborhood (Node_Node i0 p k xl yl zl psil vsl speedl) = 5
   \<and> (GenerateChildren_ub comes_back index0 thisp this lenH lenV heading vspeed dt nodeList
         = Some (this', nodeList')
       \<longrightarrow> g this' = g this \<and> h this' = h this
           \<and> (\<exists>new. nodeList' = nodeList @ new \<and> (\<forall>c \<in> set new. g c = 0 \<and> h c = 0)))
   \<and> (comes_back \<and> lenH \<le> int (length heading) \<and> lenV \<le> int (length vspeed)
       \<longrightarrow> (\<exists>new. GenerateChildren_ub comes_back index0 thisp this lenH lenV heading vspeed dt nodeList
                   = Some (this, nodeList @ new)
                 \<and> length new = nat lenH * nat lenV))"
proof (intro conjI impI)
  assume run: "GenerateChildren_ub comes_back index0 thisp this lenH lenV heading vspeed dt nodeList
       = Some (this', nodeList')"
  from GenerateChildren_ub_Some [OF run] obtain new where
    new: "this' = this" "nodeList' = nodeList @ new"
    "\<forall>c \<in> set new. \<exists>k dpsi. c = successor k thisp this dpsi dt"
    by blast
  from new(1) show "g this' = g this" and "h this' = h this" by simp_all
  from new have "nodeList' = nodeList @ new \<and> (\<forall>c \<in> set new. g c = 0 \<and> h c = 0)"
    by (auto simp: successor_sel)
  then show "\<exists>new. nodeList' = nodeList @ new \<and> (\<forall>c \<in> set new. g c = 0 \<and> h c = 0)" ..
next
  assume "comes_back \<and> lenH \<le> int (length heading) \<and> lenV \<le> int (length vspeed)"
  then show "\<exists>new. GenerateChildren_ub comes_back index0 thisp this lenH lenV heading vspeed dt nodeList
                 = Some (this, nodeList @ new)
               \<and> length new = nat lenH * nat lenV"
    using GenerateChildren_ub_returns [of lenH heading lenV vspeed index0 thisp this dt nodeList]
    by simp
qed (simp_all add: Node_Node_def)

theorem costs_default_and_untouched_witness:
  "GenerateChildren_ub True (\<lambda>i j. 0) 1 (Node 0 0 0 0 0 0 0 0 0 0 2 4 6 5 []) 1 1 [0] [0] 1
       [Node 0 0 0 0 0 0 0 0 0 0 2 4 6 5 []]
     = Some (Node 0 0 0 0 0 0 0 0 0 0 2 4 6 5 [],
             [Node 0 0 0 0 0 0 0 0 0 0 2 4 6 5 [],
              Node 1 0 0 2 0 0 0 0 0 0 2 0 0 5 [Node 1 0 0 2 0 0 0 0 0 0 2 0 0 5 []]])
   \<and> (g (Node 0 0 0 0 0 0 0 0 0 0 2 4 6 5 []) = g (Node 0 0 0 0 0 0 0 0 0 0 2 4 6 5 [])
      \<and> h (Node 0 0 0 0 0 0 0 0 0 0 2 4 6 5 []) = h (Node 0 0 0 0 0 0 0 0 0 0 2 4 6 5 [])
      \<and> (\<exists>new. [Node 0 0 0 0 0 0 0 0 0 0 2 4 6 5 [],
                 Node 1 0 0 2 0 0 0 0 0 0 2 0 0 5 [Node 1 0 0 2 0 0 0 0 0 0 2 0 0 5 []]]
               = [Node 0 0 0 0 0 0 0 0 0 0 2 4 6 5 []] @ new
             \<and> (\<forall>c \<in> set new. g c = 0 \<and> h c = 0)))
   \<and> (True \<and> (1::int) \<le> int (length [0 :: real]) \<and> (1::int) \<le> int (length [0 :: real]))
   \<and> (\<exists>new. GenerateChildren_ub True (\<lambda>i j. 0) 1 (Node 0 0 0 0 0 0 0 0 0 0 2 4 6 5 []) 1 1 [0] [0] 1
                 [Node 0 0 0 0 0 0 0 0 0 0 2 4 6 5 []]
          = Some (Node 0 0 0 0 0 0 0 0 0 0 2 4 6 5 [], [Node 0 0 0 0 0 0 0 0 0 0 2 4 6 5 []] @ new)
        \<and> length new = nat 1 * nat 1)"
proof -
  have run: "GenerateChildren_ub True (\<lambda>i j. 0) 1 (Node 0 0 0 0 0 0 0 0 0 0 2 4 6 5 []) 1 1 [0] [0] 1
       [Node 0 0 0 0 0 0 0 0 0 0 2 4 6 5 []]
     = Some (Node 0 0 0 0 0 0 0 0 0 0 2 4 6 5 [],
             [Node 0 0 0 0 0 0 0 0 0 0 2 4 6 5 [],
              Node 1 0 0 2 0 0 0 0 0 0 2 0 0 5 [Node 1 0 0 2 0 0 0 0 0 0 2 0 0 5 []]])"
    by (simp add: GenerateChildren_ub_def GenerateChildren_outer.simps
        GenerateChildren_inner.simps read_at_def body_eq successor_def set_children_def)
  have fit: "True \<and> (1::int) \<le> int (length [0 :: real]) \<and> (1::int) \<le> int (length [0 :: real])"
    by simp
  note inst = costs_default_and_untouched [where comes_back = True and ?index0.0 = "\<lambda>i j. 0"
      and thisp = 1 and this = "Node 0 0 0 0 0 0 0 0 0 0 2 4 6 5 []" and lenH = 1 and lenV = 1
      and heading = "[0]" and vspeed = "[0]" and dt = 1
      and nodeList = "[Node 0 0 0 0 0 0 0 0 0 0 2 4 6 5 []]",
      THEN conjunct2, THEN conjunct2, THEN conjunct2]
  show ?thesis
    by (rule conjI [OF run conjI [OF inst [THEN conjunct1, THEN mp, OF run]
          conjI [OF fit inst [THEN conjunct2, THEN mp, OF fit]]]])
qed

text \<open>
  C10. \<open>GenerateChildren\<close> adds each successor to the successor's own children, not to
  those of the expanded node: a run that has a result left the children of the expanded
  node as they were, and each successor it appended holds exactly one child, the copy
  of the successor that the by-value call of \<open>AddChild\<close> made, that is the successor
  with the children it had at the call (none); and where control comes back from
  \<open>AddChild\<close> and the lengths passed do not exceed the arrays, the run has a result,
  with one successor per pass.
\<close>

theorem GenerateChildren_children:
  "(GenerateChildren_ub comes_back index0 thisp this lenH lenV heading vspeed dt nodeList
       = Some (this', nodeList')
     \<longrightarrow> children this' = children this
         \<and> (\<exists>new. nodeList' = nodeList @ new
               \<and> (\<forall>c \<in> set new. children c = [set_children c []])))
   \<and> (comes_back \<and> lenH \<le> int (length heading) \<and> lenV \<le> int (length vspeed)
     \<longrightarrow> (\<exists>new. GenerateChildren_ub comes_back index0 thisp this lenH lenV heading vspeed dt nodeList
                 = Some (this, nodeList @ new)
               \<and> length new = nat lenH * nat lenV))"
proof (intro conjI impI)
  assume run: "GenerateChildren_ub comes_back index0 thisp this lenH lenV heading vspeed dt nodeList
       = Some (this', nodeList')"
  from GenerateChildren_ub_Some [OF run] obtain new where
    new: "this' = this" "nodeList' = nodeList @ new"
    "\<forall>c \<in> set new. \<exists>k dpsi. c = successor k thisp this dpsi dt"
    by blast
  from new(1) show "children this' = children this" by simp
  from new have "nodeList' = nodeList @ new \<and> (\<forall>c \<in> set new. children c = [set_children c []])"
    using successor_children by auto
  then show "\<exists>new. nodeList' = nodeList @ new \<and> (\<forall>c \<in> set new. children c = [set_children c []])" ..
next
  assume "comes_back \<and> lenH \<le> int (length heading) \<and> lenV \<le> int (length vspeed)"
  then show "\<exists>new. GenerateChildren_ub comes_back index0 thisp this lenH lenV heading vspeed dt nodeList
                 = Some (this, nodeList @ new)
               \<and> length new = nat lenH * nat lenV"
    using GenerateChildren_ub_returns [of lenH heading lenV vspeed index0 thisp this dt nodeList]
    by simp
qed

theorem GenerateChildren_children_witness:
  "GenerateChildren_ub True (\<lambda>i j. 9) 1
       (Node 0 0 0 0 0 0 0 0 0 0 2 0 0 5 [Node 1 3 0 0 0 0 0 0 0 0 2 0 0 5 []]) 1 1 [0] [0] 1 []
     = Some (Node 0 0 0 0 0 0 0 0 0 0 2 0 0 5 [Node 1 3 0 0 0 0 0 0 0 0 2 0 0 5 []],
             [Node 1 9 0 2 0 0 0 0 0 0 2 0 0 5 [Node 1 9 0 2 0 0 0 0 0 0 2 0 0 5 []]])
   \<and> (children (Node 0 0 0 0 0 0 0 0 0 0 2 0 0 5 [Node 1 3 0 0 0 0 0 0 0 0 2 0 0 5 []])
        = children (Node 0 0 0 0 0 0 0 0 0 0 2 0 0 5 [Node 1 3 0 0 0 0 0 0 0 0 2 0 0 5 []])
      \<and> (\<exists>new. [Node 1 9 0 2 0 0 0 0 0 0 2 0 0 5 [Node 1 9 0 2 0 0 0 0 0 0 2 0 0 5 []]] = [] @ new
             \<and> (\<forall>c \<in> set new. children c = [set_children c []])))
   \<and> (True \<and> (1::int) \<le> int (length [0 :: real]) \<and> (1::int) \<le> int (length [0 :: real]))
   \<and> (\<exists>new. GenerateChildren_ub True (\<lambda>i j. 9) 1
                 (Node 0 0 0 0 0 0 0 0 0 0 2 0 0 5 [Node 1 3 0 0 0 0 0 0 0 0 2 0 0 5 []]) 1 1 [0] [0] 1 []
          = Some (Node 0 0 0 0 0 0 0 0 0 0 2 0 0 5 [Node 1 3 0 0 0 0 0 0 0 0 2 0 0 5 []], [] @ new)
        \<and> length new = nat 1 * nat 1)"
proof -
  have run: "GenerateChildren_ub True (\<lambda>i j. 9) 1
       (Node 0 0 0 0 0 0 0 0 0 0 2 0 0 5 [Node 1 3 0 0 0 0 0 0 0 0 2 0 0 5 []]) 1 1 [0] [0] 1 []
     = Some (Node 0 0 0 0 0 0 0 0 0 0 2 0 0 5 [Node 1 3 0 0 0 0 0 0 0 0 2 0 0 5 []],
             [Node 1 9 0 2 0 0 0 0 0 0 2 0 0 5 [Node 1 9 0 2 0 0 0 0 0 0 2 0 0 5 []]])"
    by (simp add: GenerateChildren_ub_def GenerateChildren_outer.simps
        GenerateChildren_inner.simps read_at_def body_eq successor_def set_children_def)
  have fit: "True \<and> (1::int) \<le> int (length [0 :: real]) \<and> (1::int) \<le> int (length [0 :: real])"
    by simp
  note inst = GenerateChildren_children [where comes_back = True and ?index0.0 = "\<lambda>i j. 9"
      and thisp = 1
      and this = "Node 0 0 0 0 0 0 0 0 0 0 2 0 0 5 [Node 1 3 0 0 0 0 0 0 0 0 2 0 0 5 []]"
      and lenH = 1 and lenV = 1 and heading = "[0]" and vspeed = "[0]" and dt = 1
      and nodeList = "[]"]
  show ?thesis
    by (rule conjI [OF run conjI [OF inst [THEN conjunct1, THEN mp, OF run]
          conjI [OF fit inst [THEN conjunct2, THEN mp, OF fit]]]])
qed

end
